theory Spec2Isabelle
  imports Main
begin

section \<open>Values, signals and the observable world\<close>

text \<open>
  The three notifications a consumer can receive (\<open>next\<close>, \<open>error\<close>,
  \<open>complete\<close>), over the values they carry.
\<close>

datatype 'v signal = Next 'v | Error 'v | Complete

text \<open>
  The JavaScript values a factory can return or throw. The primitives are kept apart
  because \<open>if (result)\<close> tests their truthiness; numbers are integers here, with
  \<open>JNaN\<close> for the one falsy non-zero number. \<open>JTypeError\<close> is what the engine throws
  when a non-function is called. An array holds its elements, a promise the value it
  resolves to; an observable is described by the signals it pushes while \<open>subscribe\<close>
  runs and the signals it pushes after \<open>subscribe\<close> has returned. \<open>JObject\<close> is any
  other object.
\<close>

datatype jsval =
    JUndefined
  | JNull
  | JBool bool
  | JNum int
  | JNaN
  | JStr string
  | JTypeError
  | JArray "jsval list"
  | JPromise jsval
  | JObservable "jsval signal list" "jsval signal list"
  | JObject nat

text \<open>The test \<open>if (result)\<close>: JavaScript's ToBoolean.\<close>

fun truthy :: "jsval \<Rightarrow> bool" where
  "truthy JUndefined = False"
| "truthy JNull = False"
| "truthy (JBool b) = b"
| "truthy (JNum n) = (n \<noteq> 0)"
| "truthy JNaN = False"
| "truthy (JStr s) = (s \<noteq> [])"
| "truthy _ = True"

text \<open>
  What can be seen from outside: a call of the factory, a notification delivered to the
  downstream consumer (named by a number), a child subscription registered with its
  parent, a child subscription released.
\<close>

datatype event =
    Invoked
  | Delivered nat "jsval signal"
  | Registered nat
  | Released nat

text \<open>
  The world threaded through every call: \<open>user\<close> is whatever state the factory closes
  over, \<open>trace\<close> the events so far in order, \<open>fresh\<close> the next unused name for an
  inner subscription.
\<close>

record 's world =
  user :: 's
  trace :: "event list"
  fresh :: nat

definition emit :: "event list \<Rightarrow> 's world \<Rightarrow> 's world" where
  "emit evs w = w\<lparr>trace := trace w @ evs\<rparr>"

text \<open>
  The argument of \<open>create\<close>. Its declared type is a zero-argument function, which may
  change the state it closes over and either throws (\<open>Inl\<close>) or returns (\<open>Inr\<close>); at
  run time nothing stops a caller from passing any other value.
\<close>

datatype 's factory_fn =
    Callable "'s \<Rightarrow> (jsval + jsval) \<times> 's"
  | NotCallable jsval

text \<open>The call expression \<open>this.factory()\<close>.\<close>

fun invoke :: "'s factory_fn \<Rightarrow> 's world \<Rightarrow> (jsval + jsval) \<times> 's world" where
  "invoke (Callable f) w =
     (case f (user w) of (r, u) \<Rightarrow> (r, emit [Invoked] (w\<lparr>user := u\<rparr>)))"
| "invoke (NotCallable v) w = (Inl JTypeError, w)"

section \<open>The base classes\<close>

text \<open>
  \<open>Subscriber\<close>, \<open>Subscription\<close> and \<open>OuterSubscriber\<close> are imported by
  \<open>DeferObservable.ts\<close> but are not part of the sources at hand. The fields and methods
  of them that \<open>DeferSubscriber\<close> inherits are modelled from the specification.
\<close>

text \<open>Modelled from the spec: the state of the missing base class \<open>Subscriber\<close>. A
  delegating consumer owns a reference to the downstream consumer and a set of child
  resources; \<open>closed\<close> is the absorbing state \<open>Terminated\<close> of its state machine.
\<close>

record Subscriber =
  destination :: nat
  closed :: bool
  children :: "nat list"

text \<open>Modelled from the spec: the missing constructor \<open>Subscriber(destination)\<close>, reached
  through \<open>super(destination)\<close>; it binds the downstream consumer and starts in the
  state \<open>Constructing\<close>, alive and owning nothing.
\<close>

definition Subscriber_new :: "nat \<Rightarrow> 'a \<Rightarrow> 'a Subscriber_scheme" where
  "Subscriber_new dest ext =
     \<lparr>destination = dest, closed = False, children = [], \<dots> = ext\<rparr>"

text \<open>Modelled from the spec: the missing \<open>Subscription.unsubscribe\<close>. Releasing the
  delegating consumer releases every owned child resource exactly once; a second
  release is a no-op.
\<close>

definition unsubscribe ::
  "'a Subscriber_scheme \<Rightarrow> 's world \<Rightarrow> 'a Subscriber_scheme \<times> 's world" where
  "unsubscribe this w =
     (if closed this then (this, w)
      else (this\<lparr>closed := True, children := []\<rparr>, emit (map Released (children this)) w))"

text \<open>Modelled from the spec: the missing \<open>Subscription.add\<close>, the resource-registration
  method. A registered resource is torn down together with its parent; \<open>Terminated\<close>
  admits no further resource acquisition, and a resource that was mid-acquisition when
  the parent was released must still be released, so a released parent releases what it
  is handed at once.
\<close>

definition add ::
  "nat \<Rightarrow> 'a Subscriber_scheme \<Rightarrow> 's world \<Rightarrow> 'a Subscriber_scheme \<times> 's world" where
  "add sub this w =
     (if closed this then (this, emit [Released sub] w)
      else (this\<lparr>children := children this @ [sub]\<rparr>, emit [Registered sub] w))"

text \<open>Modelled from the spec: the missing \<open>Subscriber._error\<close>. The error is forwarded
  downstream as a terminal error signal and triggers teardown; never after a completion
  has been forwarded, never after cancellation.
\<close>

definition Subscriber_error ::
  "jsval \<Rightarrow> 'a Subscriber_scheme \<Rightarrow> 's world \<Rightarrow> 'a Subscriber_scheme \<times> 's world" where
  "Subscriber_error err this w =
     (if closed this then (this, w)
      else unsubscribe this (emit [Delivered (destination this) (Error err)] w))"

text \<open>Modelled from the spec: the missing \<open>OuterSubscriber.notifyNext\<close>. A value signal from
  the inner producer is forwarded downstream unchanged; nothing is forwarded once the
  consumer is terminated.
\<close>

definition notifyNext ::
  "jsval \<Rightarrow> 'a Subscriber_scheme \<Rightarrow> 's world \<Rightarrow> 'a Subscriber_scheme \<times> 's world" where
  "notifyNext innerValue this w =
     (if closed this then (this, w)
      else (this, emit [Delivered (destination this) (Next innerValue)] w))"

text \<open>Modelled from the spec: the missing \<open>OuterSubscriber.notifyError\<close>. An error signal
  from the inner producer is forwarded downstream as a terminal error and triggers
  teardown.
\<close>

definition notifyError ::
  "jsval \<Rightarrow> 'a Subscriber_scheme \<Rightarrow> 's world \<Rightarrow> 'a Subscriber_scheme \<times> 's world" where
  "notifyError err this w =
     (if closed this then (this, w)
      else unsubscribe this (emit [Delivered (destination this) (Error err)] w))"

text \<open>Modelled from the spec: the missing \<open>OuterSubscriber.notifyComplete\<close>. A completion
  signal from the inner producer is forwarded downstream as terminal completion and
  triggers teardown.
\<close>

definition notifyComplete ::
  "'a Subscriber_scheme \<Rightarrow> 's world \<Rightarrow> 'a Subscriber_scheme \<times> 's world" where
  "notifyComplete this w =
     (if closed this then (this, w)
      else unsubscribe this (emit [Delivered (destination this) Complete] w))"

section \<open>What reaches a delegating consumer\<close>

text \<open>
  One step of the environment: the inner producer pushes a signal into the outer
  subscriber, or the holder of the outer subscription cancels it.
\<close>

datatype act = Push "jsval signal" | Cancel

fun perform ::
  "act \<Rightarrow> 'a Subscriber_scheme \<Rightarrow> 's world \<Rightarrow> 'a Subscriber_scheme \<times> 's world" where
  "perform (Push (Next v)) this w = notifyNext v this w"
| "perform (Push (Error e)) this w = notifyError e this w"
| "perform (Push Complete) this w = notifyComplete this w"
| "perform Cancel this w = unsubscribe this w"

fun deliver ::
  "act list \<Rightarrow> 'a Subscriber_scheme \<Rightarrow> 's world \<Rightarrow> 'a Subscriber_scheme \<times> 's world" where
  "deliver [] this w = (this, w)"
| "deliver (a # as) this w = (case perform a this w of (this', w') \<Rightarrow> deliver as this' w')"

section \<open>The normalization collaborator\<close>

text \<open>
  \<open>subscribeToResult\<close> is imported but not part of the sources at hand. What it does
  with a given result is a parameter of the model: the steps that reach the outer
  subscriber while the call runs, and whether the call returns the inner subscription
  or throws.
\<close>

datatype outcome = Thrown jsval | Returned

type_synonym collaborator = "jsval \<Rightarrow> act list \<times> outcome"

text \<open>Modelled from the spec: the missing \<open>subscribeToResult(outerSubscriber, result)\<close>. It
  subscribes the outer subscriber to the normalized result, so the result's synchronous
  signals are routed through the outer subscriber's forwarding methods before the call
  returns the inner subscription.
\<close>

definition subscribeToResult ::
  "collaborator \<Rightarrow> 'a Subscriber_scheme \<Rightarrow> jsval \<Rightarrow> 's world
     \<Rightarrow> (jsval + nat) \<times> 'a Subscriber_scheme \<times> 's world" where
  "subscribeToResult norm outerSubscriber result w =
     (let inner = fresh w in
      case norm result of (acts, out) \<Rightarrow>
        (case deliver acts outerSubscriber (w\<lparr>fresh := Suc inner\<rparr>) of (this', w') \<Rightarrow>
           (case out of Thrown e \<Rightarrow> (Inl e, this', w') | Returned \<Rightarrow> (Inr inner, this', w'))))"

text \<open>Modelled from the spec: the normalization function itself. An already-conformant
  producer passes through unchanged, a deferred single value becomes a producer that
  emits it and completes (after the subscribing call has returned), a finite sequence
  becomes a producer that emits each element and completes; any other shape fails,
  here synchronously.
\<close>

fun normalize :: collaborator where
  "normalize (JObservable sync later) = (map Push sync, Returned)"
| "normalize (JPromise v) = ([], Returned)"
| "normalize (JArray xs) = (map (\<lambda>x. Push (Next x)) xs @ [Push Complete], Returned)"
| "normalize _ = ([], Thrown JTypeError)"

text \<open>Modelled from the spec: the signals a normalized result pushes after the
  subscribing call has returned: the rest of a producer's signals, or a deferred value
  and the completion that follows it.\<close>

fun afterwards :: "jsval \<Rightarrow> act list" where
  "afterwards (JObservable sync later) = map Push later"
| "afterwards (JPromise v) = [Push (Next v), Push Complete]"
| "afterwards _ = []"

section \<open>DeferObservable.ts\<close>

record 's DeferObservable =
  observableFactory :: "'s factory_fn"

record 's DeferSubscriber = Subscriber +
  factory :: "'s factory_fn"

text \<open>
  \<open>private _callFactory()\<close>: the result is \<open>Inl\<close> of what was thrown, by the factory or
  by \<open>subscribeToResult\<close>, or \<open>Inr ()\<close>.
\<close>

definition callFactory ::
  "collaborator \<Rightarrow> 's DeferSubscriber \<Rightarrow> 's world
     \<Rightarrow> (jsval + unit) \<times> 's DeferSubscriber \<times> 's world" where
  "callFactory norm this w =
     (case invoke (factory this) w of
        (Inl err, w1) \<Rightarrow> (Inl err, this, w1)
      | (Inr result, w1) \<Rightarrow>
          if truthy result then
            (case subscribeToResult norm this result w1 of
               (Inl err, this2, w2) \<Rightarrow> (Inl err, this2, w2)
             | (Inr sub, this2, w2) \<Rightarrow>
                 (case add sub this2 w2 of (this3, w3) \<Rightarrow> (Inr (), this3, w3)))
          else (Inr (), this, w1))"

text \<open>\<open>private tryDefer()\<close>: \<open>try { this._callFactory() } catch (err) { this._error(err) }\<close>.\<close>

definition tryDefer ::
  "collaborator \<Rightarrow> 's DeferSubscriber \<Rightarrow> 's world \<Rightarrow> 's DeferSubscriber \<times> 's world" where
  "tryDefer norm this w =
     (case callFactory norm this w of
        (Inl err, this1, w1) \<Rightarrow> Subscriber_error err this1 w1
      | (Inr _, this1, w1) \<Rightarrow> (this1, w1))"

text \<open>The constructor of \<open>DeferSubscriber\<close>: \<open>super(destination); this.tryDefer()\<close>.\<close>

definition DeferSubscriber_new ::
  "collaborator \<Rightarrow> nat \<Rightarrow> 's factory_fn \<Rightarrow> 's world \<Rightarrow> 's DeferSubscriber \<times> 's world" where
  "DeferSubscriber_new norm dest f w =
     tryDefer norm (Subscriber_new dest (DeferSubscriber.fields f)) w"

text \<open>Modelled from the spec: the missing constructor of \<open>Observable\<close>, reached through
  \<open>super()\<close> with no argument; construction is side-effect-free.\<close>

definition Observable_new :: "'s world \<Rightarrow> 's world" where
  "Observable_new w = w"

text \<open>
  The constructor of \<open>DeferObservable\<close>: \<open>super()\<close> receives nothing, and the parameter
  property stores the factory.
\<close>

definition DeferObservable_new ::
  "'s factory_fn \<Rightarrow> 's world \<Rightarrow> 's DeferObservable \<times> 's world" where
  "DeferObservable_new f w = (\<lparr>observableFactory = f\<rparr>, Observable_new w)"

text \<open>\<open>static create(observableFactory)\<close>.\<close>

definition create :: "'s factory_fn \<Rightarrow> 's world \<Rightarrow> 's DeferObservable \<times> 's world" where
  "create f w = DeferObservable_new f w"

text \<open>\<open>protected _subscribe(subscriber)\<close>.\<close>

definition subscribe ::
  "collaborator \<Rightarrow> 's DeferObservable \<Rightarrow> nat \<Rightarrow> 's world \<Rightarrow> 's DeferSubscriber \<times> 's world" where
  "subscribe norm this subscriber w =
     DeferSubscriber_new norm subscriber (observableFactory this) w"

section \<open>Observing a run\<close>

text \<open>
  A subscription's whole life: the subscribing call, then the steps that reach the
  subscriber after that call has returned.
\<close>

definition session ::
  "collaborator \<Rightarrow> 's DeferObservable \<Rightarrow> nat \<Rightarrow> act list \<Rightarrow> 's world
     \<Rightarrow> 's DeferSubscriber \<times> 's world" where
  "session norm obs d later w =
     (case subscribe norm obs d w of (this, w') \<Rightarrow> deliver later this w')"

text \<open>The events that happened between an earlier world and a later one.\<close>

definition since :: "'s world \<Rightarrow> 's world \<Rightarrow> event list" where
  "since w w' = drop (length (trace w)) (trace w')"

text \<open>The notifications one downstream consumer received, in order.\<close>

fun observed :: "nat \<Rightarrow> event list \<Rightarrow> jsval signal list" where
  "observed d [] = []"
| "observed d (Delivered d' s # evs) =
     (if d' = d then s # observed d evs else observed d evs)"
| "observed d (ev # evs) = observed d evs"

fun terminal :: "'v signal \<Rightarrow> bool" where
  "terminal (Next v) = False"
| "terminal s = True"

text \<open>
  A signal sequence with at most one terminal signal, and nothing after it: values
  first, then possibly one error or one completion.
\<close>

fun conformant :: "'v signal list \<Rightarrow> bool" where
  "conformant [] = True"
| "conformant (Next v # ss) = conformant ss"
| "conformant (s # ss) = (ss = [])"

text \<open>
  Of the steps that reach a live consumer, the signals that are due downstream: the
  values up to the first terminal signal or cancellation, and that terminal signal.
\<close>

fun forwarded :: "act list \<Rightarrow> jsval signal list" where
  "forwarded [] = []"
| "forwarded (Push (Next v) # as) = Next v # forwarded as"
| "forwarded (Push (Error e) # as) = [Error e]"
| "forwarded (Push Complete # as) = [Complete]"
| "forwarded (Cancel # as) = []"

text \<open>Whether the steps contain a terminal signal or a cancellation.\<close>

fun terminates :: "act list \<Rightarrow> bool" where
  "terminates [] = False"
| "terminates (Push (Next v) # as) = terminates as"
| "terminates (a # as) = True"

text \<open>Modelled from the spec: subscribing the downstream consumer to a conformant producer
  directly, with no delegation layer; the consumer receives what the producer pushes,
  in the order it pushes it.
\<close>

definition subscribe_directly ::
  "jsval signal list \<Rightarrow> jsval signal list \<Rightarrow> nat \<Rightarrow> 's world \<Rightarrow> 's world" where
  "subscribe_directly sync later d w = emit (map (Delivered d) (sync @ later)) w"

section \<open>Scenarios\<close>

text \<open>
  A factory with a side effect: it increments a counter and returns a one-element
  sequence holding the new count.
\<close>

definition counting :: "nat factory_fn" where
  "counting = Callable (\<lambda>n. (Inr (JArray [JNum (int (Suc n))]), Suc n))"

text \<open>A world in which nothing has happened yet.\<close>

definition start :: "nat world" where
  "start = \<lparr>user = 0, trace = [], fresh = 0\<rparr>"

section \<open>Basic facts\<close>

lemma emit_emit: "emit ys (emit xs w) = emit (xs @ ys) w"
  by (simp add: emit_def)

lemma emit_Nil: "emit [] w = w"
  by (simp add: emit_def)

lemma since_emit: "since w (emit evs (w\<lparr>user := u, fresh := n\<rparr>)) = evs"
  by (simp add: since_def emit_def)

lemma since_emit_user: "since w (emit evs (w\<lparr>user := u\<rparr>)) = evs"
  by (simp add: since_def emit_def)

lemma since_emit_same: "since w (emit evs w) = evs"
  by (simp add: since_def emit_def)

lemma perform_closed: "closed this \<Longrightarrow> perform a this w = (this, w)"
  by (cases "(a, this, w)" rule: perform.cases)
     (simp_all add: notifyNext_def notifyError_def notifyComplete_def unsubscribe_def)

lemma deliver_closed: "closed this \<Longrightarrow> deliver acts this w = (this, w)"
  by (induction acts) (simp_all add: perform_closed)

lemma deliver_open:
  "\<not> closed this \<Longrightarrow>
   deliver acts this w =
     (if terminates acts then this\<lparr>closed := True, children := []\<rparr> else this,
      emit (map (Delivered (destination this)) (forwarded acts)
            @ (if terminates acts then map Released (children this) else [])) w)"
proof (induction acts arbitrary: w rule: forwarded.induct)
  case 1
  show ?case by (simp add: emit_Nil)
next
  case (2 v as)
  then show ?case by (simp add: notifyNext_def emit_emit)
next
  case (3 e as)
  then show ?case by (simp add: notifyError_def unsubscribe_def deliver_closed emit_emit)
next
  case (4 as)
  then show ?case by (simp add: notifyComplete_def unsubscribe_def deliver_closed emit_emit)
next
  case (5 as)
  then show ?case by (simp add: unsubscribe_def deliver_closed)
qed

section \<open>The subscribing call, case by case\<close>

lemma subscribe_not_callable:
  "observableFactory obs = NotCallable v \<Longrightarrow>
   subscribe norm obs d w =
     (\<lparr>destination = d, closed = True, children = [], factory = NotCallable v\<rparr>,
      emit [Delivered d (Error JTypeError)] w)"
  by (simp add: subscribe_def DeferSubscriber_new_def tryDefer_def callFactory_def
        Subscriber_error_def unsubscribe_def Subscriber_new_def DeferSubscriber.defs
        emit_def)

lemma subscribe_thrown:
  "observableFactory obs = Callable f \<Longrightarrow> f (user w) = (Inl e, u) \<Longrightarrow>
   subscribe norm obs d w =
     (\<lparr>destination = d, closed = True, children = [], factory = Callable f\<rparr>,
      emit [Invoked, Delivered d (Error e)] (w\<lparr>user := u\<rparr>))"
  by (simp add: subscribe_def DeferSubscriber_new_def tryDefer_def callFactory_def
        Subscriber_error_def unsubscribe_def Subscriber_new_def DeferSubscriber.defs
        emit_def)

lemma subscribe_falsy:
  "observableFactory obs = Callable f \<Longrightarrow> f (user w) = (Inr r, u) \<Longrightarrow> \<not> truthy r \<Longrightarrow>
   subscribe norm obs d w =
     (\<lparr>destination = d, closed = False, children = [], factory = Callable f\<rparr>,
      emit [Invoked] (w\<lparr>user := u\<rparr>))"
  by (simp add: subscribe_def DeferSubscriber_new_def tryDefer_def callFactory_def
        Subscriber_new_def DeferSubscriber.defs)

lemma subscribe_returned:
  "observableFactory obs = Callable f \<Longrightarrow> f (user w) = (Inr r, u) \<Longrightarrow> truthy r \<Longrightarrow>
   norm r = (acts, Returned) \<Longrightarrow>
   subscribe norm obs d w =
     (if terminates acts
      then \<lparr>destination = d, closed = True, children = [], factory = Callable f\<rparr>
      else \<lparr>destination = d, closed = False, children = [fresh w], factory = Callable f\<rparr>,
      emit (Invoked # map (Delivered d) (forwarded acts)
            @ [if terminates acts then Released (fresh w) else Registered (fresh w)])
        (w\<lparr>user := u, fresh := Suc (fresh w)\<rparr>))"
  by (simp add: subscribe_def DeferSubscriber_new_def tryDefer_def callFactory_def
        subscribeToResult_def deliver_open add_def Subscriber_new_def DeferSubscriber.defs
        emit_def Let_def)

lemma subscribe_failed:
  "observableFactory obs = Callable f \<Longrightarrow> f (user w) = (Inr r, u) \<Longrightarrow> truthy r \<Longrightarrow>
   norm r = (acts, Thrown e) \<Longrightarrow>
   subscribe norm obs d w =
     (\<lparr>destination = d, closed = True, children = [], factory = Callable f\<rparr>,
      emit (Invoked # map (Delivered d) (forwarded acts)
            @ (if terminates acts then [] else [Delivered d (Error e)]))
        (w\<lparr>user := u, fresh := Suc (fresh w)\<rparr>))"
  by (simp add: subscribe_def DeferSubscriber_new_def tryDefer_def callFactory_def
        subscribeToResult_def deliver_open Subscriber_error_def unsubscribe_def
        Subscriber_new_def DeferSubscriber.defs emit_def Let_def)

lemma tryDefer_thrown:
  "f (user w) = (Inl e, u) \<Longrightarrow>
   subscribe norm \<lparr>observableFactory = Callable f\<rparr> d w =
     Subscriber_error e
       \<lparr>destination = d, closed = False, children = [], factory = Callable f\<rparr>
       (emit [Invoked] (w\<lparr>user := u\<rparr>))"
  by (simp add: subscribe_def DeferSubscriber_new_def tryDefer_def callFactory_def
        Subscriber_new_def DeferSubscriber.defs)

lemma tryDefer_not_callable:
  "subscribe norm \<lparr>observableFactory = NotCallable v\<rparr> d w =
     Subscriber_error JTypeError
       \<lparr>destination = d, closed = False, children = [], factory = NotCallable v\<rparr> w"
  by (simp add: subscribe_def DeferSubscriber_new_def tryDefer_def callFactory_def
        Subscriber_new_def DeferSubscriber.defs)

lemma tryDefer_failed:
  "f (user w) = (Inr r, u) \<Longrightarrow> truthy r \<Longrightarrow> norm r = (acts, Thrown e) \<Longrightarrow>
   subscribe norm \<lparr>observableFactory = Callable f\<rparr> d w =
     (case subscribeToResult norm
             \<lparr>destination = d, closed = False, children = [], factory = Callable f\<rparr> r
             (emit [Invoked] (w\<lparr>user := u\<rparr>)) of
        (res, this, w') \<Rightarrow> Subscriber_error e this w')"
  by (simp add: subscribe_def DeferSubscriber_new_def tryDefer_def callFactory_def
        Subscriber_new_def DeferSubscriber.defs subscribeToResult_def Let_def split_beta)

lemma factory_cases [case_names NotCallable Thrown Falsy Returned Failed]:
  fixes f :: "'s factory_fn" and w :: "'s world" and norm :: collaborator
  obtains
    v where "f = NotCallable v"
  | g e u where "f = Callable g" and "g (user w) = (Inl e, u)"
  | g r u where "f = Callable g" and "g (user w) = (Inr r, u)" and "\<not> truthy r"
  | g r u acts where "f = Callable g" and "g (user w) = (Inr r, u)" and "truthy r"
      and "norm r = (acts, Returned)"
  | g r u acts e where "f = Callable g" and "g (user w) = (Inr r, u)" and "truthy r"
      and "norm r = (acts, Thrown e)"
proof (cases f)
  case (NotCallable v)
  then show ?thesis using that(1) by blast
next
  case (Callable g)
  obtain res u where gu: "g (user w) = (res, u)" by (cases "g (user w)")
  show ?thesis
  proof (cases res)
    case (Inl e)
    then show ?thesis using that(2) Callable gu by blast
  next
    case (Inr r)
    show ?thesis
    proof (cases "truthy r")
      case False
      then show ?thesis using that(3) Callable gu Inr by blast
    next
      case True
      obtain acts out where nr: "norm r = (acts, out)" by (cases "norm r")
      show ?thesis
      proof (cases out)
        case (Thrown e)
        then show ?thesis using that(5) Callable gu Inr True nr by blast
      next
        case Returned
        then show ?thesis using that(4) Callable gu Inr True nr by blast
      qed
    qed
  qed
qed


section \<open>Frames\<close>

lemma deliver_shape:
  "\<exists>this' evs. deliver acts this w = (this', emit evs w) \<and> Invoked \<notin> set evs"
proof (cases "closed this")
  case True
  then have "deliver acts this w = (this, emit [] w)" by (simp add: deliver_closed emit_Nil)
  then show ?thesis by fastforce
next
  case False
  show ?thesis
    by (rule exI, rule exI, rule conjI, rule deliver_open[OF False]) auto
qed

lemma no_invocation_in_deliveries: "count_list (map (Delivered d) sigs) Invoked = 0"
  by (induction sigs) simp_all

lemma deliver_user: "user (snd (deliver acts this w)) = user w"
  using deliver_shape[of acts this w] by (auto simp: emit_def)

lemma deliver_fresh: "fresh (snd (deliver acts this w)) = fresh w"
  using deliver_shape[of acts this w] by (auto simp: emit_def)

lemma deliver_invocations:
  "count_list (trace (snd (deliver acts this w))) Invoked = count_list (trace w) Invoked"
  using deliver_shape[of acts this w] by (auto simp: emit_def)

lemma subscribe_invocations:
  assumes "observableFactory obs = Callable g"
  shows "count_list (trace (snd (subscribe norm obs d w))) Invoked
         = Suc (count_list (trace w) Invoked)"
proof (cases rule: factory_cases[where f = "observableFactory obs" and w = w and norm = norm])
  case (NotCallable v)
  then show ?thesis using assms by simp
next
  case (Thrown g' e u)
  then show ?thesis by (simp add: subscribe_thrown emit_def)
next
  case (Falsy g' r u)
  then show ?thesis by (simp add: subscribe_falsy emit_def)
next
  case (Returned g' r u acts)
  then show ?thesis by (simp add: subscribe_returned emit_def no_invocation_in_deliveries)
next
  case (Failed g' r u acts e)
  then show ?thesis by (simp add: subscribe_failed emit_def no_invocation_in_deliveries)
qed

lemma subscribe_user:
  assumes "observableFactory obs = Callable g"
  shows "user (snd (subscribe norm obs d w)) = snd (g (user w))"
proof (cases rule: factory_cases[where f = "observableFactory obs" and w = w and norm = norm])
  case (NotCallable v)
  then show ?thesis using assms by simp
next
  case (Thrown g' e u)
  then show ?thesis using assms by (simp add: subscribe_thrown emit_def)
next
  case (Falsy g' r u)
  then show ?thesis using assms by (simp add: subscribe_falsy emit_def)
next
  case (Returned g' r u acts)
  then show ?thesis using assms by (simp add: subscribe_returned emit_def)
next
  case (Failed g' r u acts e)
  then show ?thesis using assms by (simp add: subscribe_failed emit_def)
qed

lemma subscribe_frame:
  assumes "user v = user w" and "fresh v = fresh w"
  shows "fst (subscribe norm obs d v) = fst (subscribe norm obs d w)
       \<and> since v (snd (subscribe norm obs d v)) = since w (snd (subscribe norm obs d w))
       \<and> user (snd (subscribe norm obs d v)) = user (snd (subscribe norm obs d w))
       \<and> fresh (snd (subscribe norm obs d v)) = fresh (snd (subscribe norm obs d w))"
proof (cases rule: factory_cases[where f = "observableFactory obs" and w = w and norm = norm])
  case (NotCallable x)
  then show ?thesis using assms
    by (simp add: subscribe_not_callable since_def emit_def)
next
  case (Thrown g e u)
  moreover have "g (user v) = (Inl e, u)" using Thrown assms by simp
  ultimately show ?thesis using assms
    by (simp add: subscribe_thrown since_def emit_def)
next
  case (Falsy g r u)
  moreover have "g (user v) = (Inr r, u)" using Falsy assms by simp
  ultimately show ?thesis using assms
    by (simp add: subscribe_falsy since_def emit_def)
next
  case (Returned g r u acts)
  moreover have "g (user v) = (Inr r, u)" using Returned assms by simp
  ultimately show ?thesis using assms
    by (simp add: subscribe_returned since_def emit_def)
next
  case (Failed g r u acts e)
  moreover have "g (user v) = (Inr r, u)" using Failed assms by simp
  ultimately show ?thesis using assms
    by (simp add: subscribe_failed since_def emit_def)
qed


section \<open>Facts about signal sequences\<close>

lemma observed_append: "observed d (xs @ ys) = observed d xs @ observed d ys"
  by (induction d xs rule: observed.induct) simp_all

lemma observed_deliveries: "observed d (map (Delivered d) sigs) = sigs"
  by (induction sigs) simp_all

lemma observed_releases: "observed d (map Released cs) = []"
  by (induction cs) simp_all

lemma forwarded_values: "forwarded (map (\<lambda>v. Push (Next v)) vs) = map Next vs"
  by (induction vs) simp_all

lemma terminates_values: "\<not> terminates (map (\<lambda>v. Push (Next v)) vs)"
  by (induction vs) simp_all

lemma forwarded_cancels: "forwarded (replicate n Cancel) = []"
  by (cases n) simp_all

lemma terminates_cancels: "terminates (replicate n Cancel) = (0 < n)"
  by (cases n) simp_all

lemma conformant_forwarded: "conformant (forwarded acts)"
  by (induction acts rule: forwarded.induct) simp_all

lemma conformant_forwarded_append:
  "\<not> terminates acts \<Longrightarrow> conformant (forwarded acts @ sigs) = conformant sigs"
  by (induction acts rule: forwarded.induct) simp_all

lemma terminal_forwarded:
  "(\<exists>s \<in> set (forwarded acts). terminal s) \<Longrightarrow> terminates acts"
  by (induction acts rule: forwarded.induct) simp_all

lemma forwarded_conformant: "conformant sigs \<Longrightarrow> forwarded (map Push sigs) = sigs"
  by (induction sigs rule: conformant.induct) simp_all

lemma conformant_appendD1: "conformant (xs @ ys) \<Longrightarrow> conformant xs"
  by (induction xs rule: conformant.induct) simp_all

lemma conformant_appendD2: "conformant (xs @ ys) \<Longrightarrow> conformant ys"
  by (induction xs rule: conformant.induct) simp_all

lemma conformant_terminated:
  "conformant (xs @ ys) \<Longrightarrow> terminates (map Push xs) \<Longrightarrow> ys = []"
  by (induction xs rule: conformant.induct) simp_all

lemma no_terminal_forwarded:
  "\<not> terminates acts \<Longrightarrow> s \<in> set (forwarded acts) \<Longrightarrow> \<not> terminal s"
  using terminal_forwarded by blast

lemma no_registration_in_deliveries: "Registered c \<notin> set (map (Delivered d) sigs)"
  by auto

lemma no_release_in_deliveries: "count_list (map (Delivered d) sigs) (Released c) = 0"
  by (induction sigs) simp_all

lemma deliver_append:
  "deliver (xs @ ys) this w = (case deliver xs this w of (this', w') \<Rightarrow> deliver ys this' w')"
  by (induction xs arbitrary: this w) (simp_all split: prod.splits)

section \<open>A whole session, case by case\<close>

lemma session_not_callable:
  "observableFactory obs = NotCallable v \<Longrightarrow>
   session norm obs d later w =
     (\<lparr>destination = d, closed = True, children = [], factory = NotCallable v\<rparr>,
      emit [Delivered d (Error JTypeError)] w)"
  by (simp add: session_def subscribe_not_callable deliver_closed)

lemma session_thrown:
  "observableFactory obs = Callable f \<Longrightarrow> f (user w) = (Inl e, u) \<Longrightarrow>
   session norm obs d later w =
     (\<lparr>destination = d, closed = True, children = [], factory = Callable f\<rparr>,
      emit [Invoked, Delivered d (Error e)] (w\<lparr>user := u\<rparr>))"
  by (simp add: session_def subscribe_thrown deliver_closed)

lemma session_falsy:
  "observableFactory obs = Callable f \<Longrightarrow> f (user w) = (Inr r, u) \<Longrightarrow> \<not> truthy r \<Longrightarrow>
   session norm obs d later w =
     (\<lparr>destination = d, closed = terminates later, children = [], factory = Callable f\<rparr>,
      emit (Invoked # map (Delivered d) (forwarded later)) (w\<lparr>user := u\<rparr>))"
  by (simp add: session_def subscribe_falsy deliver_open emit_emit)

lemma session_returned:
  "observableFactory obs = Callable f \<Longrightarrow> f (user w) = (Inr r, u) \<Longrightarrow> truthy r \<Longrightarrow>
   norm r = (acts, Returned) \<Longrightarrow>
   session norm obs d later w =
     (if terminates acts then
        (\<lparr>destination = d, closed = True, children = [], factory = Callable f\<rparr>,
         emit (Invoked # map (Delivered d) (forwarded acts) @ [Released (fresh w)])
           (w\<lparr>user := u, fresh := Suc (fresh w)\<rparr>))
      else
        (\<lparr>destination = d, closed = terminates later,
           children = (if terminates later then [] else [fresh w]), factory = Callable f\<rparr>,
         emit (Invoked # map (Delivered d) (forwarded acts) @ Registered (fresh w)
                 # map (Delivered d) (forwarded later)
                 @ (if terminates later then [Released (fresh w)] else []))
           (w\<lparr>user := u, fresh := Suc (fresh w)\<rparr>)))"
  by (simp add: session_def subscribe_returned deliver_open deliver_closed emit_emit)

lemma session_failed:
  "observableFactory obs = Callable f \<Longrightarrow> f (user w) = (Inr r, u) \<Longrightarrow> truthy r \<Longrightarrow>
   norm r = (acts, Thrown e) \<Longrightarrow>
   session norm obs d later w =
     (\<lparr>destination = d, closed = True, children = [], factory = Callable f\<rparr>,
      emit (Invoked # map (Delivered d) (forwarded acts)
            @ (if terminates acts then [] else [Delivered d (Error e)]))
        (w\<lparr>user := u, fresh := Suc (fresh w)\<rparr>))"
  by (simp add: session_def subscribe_failed deliver_closed)

lemma deliver_frame:
  "fst (deliver acts this v) = fst (deliver acts this w)
   \<and> since v (snd (deliver acts this v)) = since w (snd (deliver acts this w))"
  by (cases "closed this") (simp_all add: deliver_closed deliver_open since_def emit_def)

lemma session_invocations:
  "count_list (trace (snd (session norm obs d later w))) Invoked
     = count_list (trace (snd (subscribe norm obs d w))) Invoked"
  by (simp add: session_def split_beta deliver_invocations)

lemmas run_defs = subscribe_def DeferSubscriber_new_def tryDefer_def callFactory_def
  subscribeToResult_def add_def Subscriber_new_def DeferSubscriber.defs Subscriber_error_def
  unsubscribe_def notifyNext_def notifyError_def notifyComplete_def emit_def session_def
  since_def create_def DeferObservable_new_def Observable_new_def Let_def

section \<open>Laziness and freshness\<close>

text \<open>
  C1: constructing a DeferredProducer, through \<open>create\<close> or the constructor, never
  invokes the factory: the call returns the producer holding the factory and leaves the
  world (the factory's state and the record of invocations) as it was. Each subscribing
  call invokes a callable factory, once; nothing that reaches a subscriber afterwards
  invokes it again.
\<close>

theorem create_is_lazy:
  "create f w = (\<lparr>observableFactory = f\<rparr>, w)
   \<and> DeferObservable_new f w = (\<lparr>observableFactory = f\<rparr>, w)
   \<and> count_list (trace (snd (subscribe norm (fst (create (Callable g) w)) d w))) Invoked
       = Suc (count_list (trace w) Invoked)
   \<and> count_list (trace (snd (deliver acts this w))) Invoked = count_list (trace w) Invoked"
  by (simp add: create_def DeferObservable_new_def Observable_new_def subscribe_invocations
        deliver_invocations)

theorem create_is_lazy_witness:
  "create counting start = (\<lparr>observableFactory = counting\<rparr>, start)
   \<and> count_list (trace (snd (create counting start))) Invoked = 0
   \<and> user (snd (create counting start)) = 0
   \<and> count_list (trace (snd (subscribe normalize (fst (create counting start)) 1 start))) Invoked = 1
   \<and> user (snd (subscribe normalize (fst (create counting start)) 1 start)) = 1"
  using create_is_lazy[of counting start normalize
      "\<lambda>n. (Inr (JArray [JNum (int (Suc n))]), Suc n)" 1 "[]"
      "\<lparr>destination = 1, closed = False, children = []\<rparr>"]
  by (simp add: run_defs counting_def start_def)

text \<open>
  C2: every subscribing call constructs a fresh DeferSubscriber, bound to the given
  downstream consumer and the stored factory, alive and owning nothing, and runs
  \<open>tryDefer\<close> on it; during the call a callable factory is invoked exactly once, on the
  state it finds, and nothing that reaches the subscriber later invokes it again. Two
  subscriptions to the same producer are independent: whatever reached the first
  subscriber between the two calls (values, a terminal signal, a cancellation), the
  second call builds the same subscriber and causes the same events; and the first
  subscriber reacts to what reaches it as it would have without the second call.
\<close>

theorem subscribe_is_fresh_per_subscriber:
  "subscribe norm obs d w =
     tryDefer norm
       \<lparr>destination = d, closed = False, children = [], factory = observableFactory obs\<rparr> w
   \<and> count_list (trace (snd (subscribe norm \<lparr>observableFactory = Callable g\<rparr> d w))) Invoked
       = Suc (count_list (trace w) Invoked)
   \<and> count_list (trace (snd (session norm \<lparr>observableFactory = Callable g\<rparr> d acts w))) Invoked
       = Suc (count_list (trace w) Invoked)
   \<and> user (snd (subscribe norm \<lparr>observableFactory = Callable g\<rparr> d w)) = snd (g (user w))
   \<and> (let w1 = snd (subscribe norm obs d w); w1' = snd (session norm obs d acts w) in
        fst (subscribe norm obs d' w1') = fst (subscribe norm obs d' w1)
        \<and> since w1' (snd (subscribe norm obs d' w1')) = since w1 (snd (subscribe norm obs d' w1)))
   \<and> (let this1 = fst (subscribe norm obs d w); w1 = snd (subscribe norm obs d w);
            w2 = snd (subscribe norm obs d' w1) in
        fst (deliver acts this1 w2) = fst (deliver acts this1 w1)
        \<and> since w2 (snd (deliver acts this1 w2)) = since w1 (snd (deliver acts this1 w1)))"
proof -
  have fresh_consumer: "subscribe norm obs d w =
     tryDefer norm
       \<lparr>destination = d, closed = False, children = [], factory = observableFactory obs\<rparr> w"
    by (simp add: subscribe_def DeferSubscriber_new_def Subscriber_new_def DeferSubscriber.defs)
  have once: "count_list (trace (snd (subscribe norm \<lparr>observableFactory = Callable g\<rparr> d w))) Invoked
       = Suc (count_list (trace w) Invoked)"
    by (simp add: subscribe_invocations)
  have never_again:
    "count_list (trace (snd (session norm \<lparr>observableFactory = Callable g\<rparr> d acts w))) Invoked
       = Suc (count_list (trace w) Invoked)"
    by (simp add: session_invocations subscribe_invocations)
  have ran: "user (snd (subscribe norm \<lparr>observableFactory = Callable g\<rparr> d w)) = snd (g (user w))"
    by (simp add: subscribe_user)
  have "user (snd (session norm obs d acts w)) = user (snd (subscribe norm obs d w))"
    and "fresh (snd (session norm obs d acts w)) = fresh (snd (subscribe norm obs d w))"
    by (simp_all add: session_def split_beta deliver_user deliver_fresh)
  from subscribe_frame[OF this, of norm obs d']
  have second: "let w1 = snd (subscribe norm obs d w); w1' = snd (session norm obs d acts w) in
        fst (subscribe norm obs d' w1') = fst (subscribe norm obs d' w1)
        \<and> since w1' (snd (subscribe norm obs d' w1')) = since w1 (snd (subscribe norm obs d' w1))"
    by (simp add: Let_def)
  have first: "let this1 = fst (subscribe norm obs d w); w1 = snd (subscribe norm obs d w);
            w2 = snd (subscribe norm obs d' w1) in
        fst (deliver acts this1 w2) = fst (deliver acts this1 w1)
        \<and> since w2 (snd (deliver acts this1 w2)) = since w1 (snd (deliver acts this1 w1))"
    using deliver_frame by (simp add: Let_def)
  from fresh_consumer once never_again ran second first show ?thesis by blast
qed

theorem subscribe_is_fresh_per_subscriber_witness:
  "count_list (trace (snd (subscribe normalize \<lparr>observableFactory = counting\<rparr> 1 start))) Invoked = 1
   \<and> user (snd (subscribe normalize \<lparr>observableFactory = counting\<rparr> 1 start)) = 1
   \<and> trace (snd (subscribe normalize \<lparr>observableFactory = counting\<rparr> 2
              (snd (subscribe normalize \<lparr>observableFactory = counting\<rparr> 1 start))))
       = [Invoked, Delivered 1 (Next (JNum 1)), Delivered 1 Complete, Released 0,
          Invoked, Delivered 2 (Next (JNum 2)), Delivered 2 Complete, Released 1]
   \<and> since (snd (session normalize \<lparr>observableFactory = counting\<rparr> 1 [Cancel] start))
         (snd (subscribe normalize \<lparr>observableFactory = counting\<rparr> 2
              (snd (session normalize \<lparr>observableFactory = counting\<rparr> 1 [Cancel] start))))
       = [Invoked, Delivered 2 (Next (JNum 2)), Delivered 2 Complete, Released 1]"
  using subscribe_is_fresh_per_subscriber[of normalize "\<lparr>observableFactory = counting\<rparr>" 1 start
      "\<lambda>n. (Inr (JArray [JNum (int (Suc n))]), Suc n)" "[Cancel]" 2]
  by (simp add: run_defs counting_def start_def)

section \<open>What the factory's outcome decides\<close>

text \<open>
  C3: when the factory throws, \<open>tryDefer\<close> hands the thrown value to \<open>_error\<close> on the
  subscriber as the constructor left it; the downstream consumer receives exactly one
  notification, the error carrying the thrown value, and nothing else, whatever reaches
  the subscriber later; the subscriber ends released, owning no child, and no inner
  subscription was ever created.
\<close>

theorem factory_error_is_contained:
  assumes "g (user w) = (Inl e, u)"
  shows "subscribe norm (fst (create (Callable g) w)) d w =
           Subscriber_error e
             \<lparr>destination = d, closed = False, children = [], factory = Callable g\<rparr>
             (emit [Invoked] (w\<lparr>user := u\<rparr>))
       \<and> session norm (fst (create (Callable g) w)) d later w =
           (\<lparr>destination = d, closed = True, children = [], factory = Callable g\<rparr>,
            emit [Invoked, Delivered d (Error e)] (w\<lparr>user := u\<rparr>))
       \<and> since w (snd (session norm (fst (create (Callable g) w)) d later w))
           = [Invoked, Delivered d (Error e)]
       \<and> observed d (since w (snd (session norm (fst (create (Callable g) w)) d later w)))
           = [Error e]
       \<and> children (fst (session norm (fst (create (Callable g) w)) d later w)) = []
       \<and> fresh (snd (session norm (fst (create (Callable g) w)) d later w)) = fresh w"
proof -
  have "session norm (fst (create (Callable g) w)) d later w =
           (\<lparr>destination = d, closed = True, children = [], factory = Callable g\<rparr>,
            emit [Invoked, Delivered d (Error e)] (w\<lparr>user := u\<rparr>))"
    using assms by (simp add: session_thrown create_def DeferObservable_new_def Observable_new_def)
  moreover have "subscribe norm (fst (create (Callable g) w)) d w =
           Subscriber_error e
             \<lparr>destination = d, closed = False, children = [], factory = Callable g\<rparr>
             (emit [Invoked] (w\<lparr>user := u\<rparr>))"
    using assms by (simp add: tryDefer_thrown create_def DeferObservable_new_def Observable_new_def)
  ultimately show ?thesis by (simp add: since_emit_user) (simp add: emit_def)
qed

theorem factory_error_is_contained_witness:
  "session normalize (fst (create (Callable (\<lambda>n. (Inl (JStr ''boom''), n))) start)) 1
       [Push (Next (JNum 5)), Push Complete, Cancel] start =
     (\<lparr>destination = 1, closed = True, children = [],
         factory = Callable (\<lambda>n. (Inl (JStr ''boom''), n))\<rparr>,
      \<lparr>user = 0, trace = [Invoked, Delivered 1 (Error (JStr ''boom''))], fresh = 0\<rparr>)
   \<and> observed 1 (since start (snd (session normalize
          (fst (create (Callable (\<lambda>n. (Inl (JStr ''boom''), n))) start)) 1
          [Push (Next (JNum 5)), Push Complete, Cancel] start)))
       = [Error (JStr ''boom'')]"
  using factory_error_is_contained[of "\<lambda>n. (Inl (JStr ''boom''), n)" start "JStr ''boom''" 0
      normalize 1 "[Push (Next (JNum 5)), Push Complete, Cancel]"]
  by (simp add: run_defs start_def)

text \<open>
  C4: when the factory returns a falsy value (\<open>undefined\<close>, \<open>null\<close>, \<open>false\<close>, zero,
  \<open>NaN\<close>, the empty string), the collaborator is not consulted, no inner subscription
  is created, no child is registered, and the downstream consumer is notified of
  nothing for as long as the subscription lives; with no inner producer, all that can
  still reach the subscriber is cancellation.
\<close>

theorem falsy_result_is_no_source:
  assumes "g (user w) = (Inr r, u)" and "\<not> truthy r"
  shows "session norm \<lparr>observableFactory = Callable g\<rparr> d (replicate n Cancel) w =
           (\<lparr>destination = d, closed = (0 < n), children = [], factory = Callable g\<rparr>,
            emit [Invoked] (w\<lparr>user := u\<rparr>))
       \<and> since w (snd (session norm \<lparr>observableFactory = Callable g\<rparr> d (replicate n Cancel) w))
           = [Invoked]
       \<and> observed d (since w
             (snd (session norm \<lparr>observableFactory = Callable g\<rparr> d (replicate n Cancel) w))) = []
       \<and> children (fst (session norm \<lparr>observableFactory = Callable g\<rparr> d (replicate n Cancel) w))
           = []
       \<and> fresh (snd (session norm \<lparr>observableFactory = Callable g\<rparr> d (replicate n Cancel) w))
           = fresh w
       \<and> session norm \<lparr>observableFactory = Callable g\<rparr> d (replicate n Cancel) w
           = session norm' \<lparr>observableFactory = Callable g\<rparr> d (replicate n Cancel) w"
proof -
  have "\<And>c. session c \<lparr>observableFactory = Callable g\<rparr> d (replicate n Cancel) w =
           (\<lparr>destination = d, closed = (0 < n), children = [], factory = Callable g\<rparr>,
            emit [Invoked] (w\<lparr>user := u\<rparr>))"
    using assms by (simp add: session_falsy forwarded_cancels terminates_cancels)
  then show ?thesis by (simp add: since_emit_user) (simp add: emit_def)
qed

theorem falsy_result_is_no_source_witness:
  "\<not> truthy (JNum 0)
   \<and> session normalize \<lparr>observableFactory = Callable (\<lambda>n. (Inr (JNum 0), n))\<rparr> 1
       (replicate 2 Cancel) start =
     (\<lparr>destination = 1, closed = True, children = [],
         factory = Callable (\<lambda>n. (Inr (JNum 0), n))\<rparr>,
      \<lparr>user = 0, trace = [Invoked], fresh = 0\<rparr>)
   \<and> subscribe normalize \<lparr>observableFactory = Callable (\<lambda>n. (Inr (JNum 0), n))\<rparr> 1 start =
     (\<lparr>destination = 1, closed = False, children = [],
         factory = Callable (\<lambda>n. (Inr (JNum 0), n))\<rparr>,
      \<lparr>user = 0, trace = [Invoked], fresh = 0\<rparr>)"
  using falsy_result_is_no_source[of "\<lambda>n. (Inr (JNum 0), n)" start "JNum 0" 0 normalize 1 2 normalize]
    falsy_result_is_no_source[of "\<lambda>n. (Inr (JNum 0), n)" start "JNum 0" 0 normalize 1 0 normalize]
  by (simp add: run_defs start_def)

text \<open>
  C7: when the factory returns a truthy value that \<open>subscribeToResult\<close> rejects by
  throwing (having pushed no terminal signal before it throws, and not having been
  cancelled), the \<open>catch\<close> of \<open>tryDefer\<close> surfaces what was thrown as the one terminal
  error the downstream consumer receives, and nothing follows it.
\<close>

theorem normalization_error_is_contained:
  assumes "g (user w) = (Inr r, u)" and "truthy r"
    and "norm r = (acts, Thrown e)" and "\<not> terminates acts"
  shows "subscribe norm \<lparr>observableFactory = Callable g\<rparr> d w =
           (case subscribeToResult norm
                   \<lparr>destination = d, closed = False, children = [], factory = Callable g\<rparr> r
                   (emit [Invoked] (w\<lparr>user := u\<rparr>)) of
              (res, this, w') \<Rightarrow> Subscriber_error e this w')
       \<and> session norm \<lparr>observableFactory = Callable g\<rparr> d later w =
           (\<lparr>destination = d, closed = True, children = [], factory = Callable g\<rparr>,
            emit (Invoked # map (Delivered d) (forwarded acts) @ [Delivered d (Error e)])
              (w\<lparr>user := u, fresh := Suc (fresh w)\<rparr>))
       \<and> observed d (since w (snd (session norm \<lparr>observableFactory = Callable g\<rparr> d later w)))
           = forwarded acts @ [Error e]
       \<and> conformant (forwarded acts @ [Error e])"
proof -
  have run: "session norm \<lparr>observableFactory = Callable g\<rparr> d later w =
           (\<lparr>destination = d, closed = True, children = [], factory = Callable g\<rparr>,
            emit (Invoked # map (Delivered d) (forwarded acts) @ [Delivered d (Error e)])
              (w\<lparr>user := u, fresh := Suc (fresh w)\<rparr>))"
    using assms by (simp add: session_failed)
  have seen: "observed d (Invoked # map (Delivered d) (forwarded acts) @ [Delivered d (Error e)])
          = forwarded acts @ [Error e]"
    by (simp add: observed_append observed_deliveries)
  have shape: "conformant (forwarded acts @ [Error e])"
    using assms(4) by (simp add: conformant_forwarded_append)
  have caught: "subscribe norm \<lparr>observableFactory = Callable g\<rparr> d w =
           (case subscribeToResult norm
                   \<lparr>destination = d, closed = False, children = [], factory = Callable g\<rparr> r
                   (emit [Invoked] (w\<lparr>user := u\<rparr>)) of
              (res, this, w') \<Rightarrow> Subscriber_error e this w')"
    using assms(1-3) by (rule tryDefer_failed[where f = g and w = w and norm = norm])
  from run seen shape caught show ?thesis by (simp add: since_emit)
qed

theorem normalization_error_is_contained_witness:
  "truthy (JObject 7) \<and> normalize (JObject 7) = ([], Thrown JTypeError) \<and> \<not> terminates []
   \<and> session normalize \<lparr>observableFactory = Callable (\<lambda>n. (Inr (JObject 7), n))\<rparr> 1 [Cancel] start =
     (\<lparr>destination = 1, closed = True, children = [],
         factory = Callable (\<lambda>n. (Inr (JObject 7), n))\<rparr>,
      \<lparr>user = 0, trace = [Invoked, Delivered 1 (Error JTypeError)], fresh = 1\<rparr>)
   \<and> observed 1 (since start (snd (session normalize
         \<lparr>observableFactory = Callable (\<lambda>n. (Inr (JObject 7), n))\<rparr> 1 [Cancel] start)))
       = [Error JTypeError]"
  using normalization_error_is_contained[of "\<lambda>n. (Inr (JObject 7), n)" start "JObject 7" 0
      normalize "[]" JTypeError 1 "[Cancel]"]
  by (simp add: run_defs start_def)

text \<open>
  C9: \<open>create\<close> and the constructor store whatever argument they are given, callable or
  not, and have no failing path; a non-callable factory fails only when a subscriber
  arrives, and the error of the attempted call is that subscriber's single, terminal
  notification.
\<close>

theorem invalid_factory_fails_at_subscribe:
  "create f w = (\<lparr>observableFactory = f\<rparr>, w)
   \<and> create (NotCallable v) w = (\<lparr>observableFactory = NotCallable v\<rparr>, w)
   \<and> DeferObservable_new (NotCallable v) w = (\<lparr>observableFactory = NotCallable v\<rparr>, w)
   \<and> subscribe norm (fst (create (NotCallable v) w)) d w =
        Subscriber_error JTypeError
          \<lparr>destination = d, closed = False, children = [], factory = NotCallable v\<rparr> w
   \<and> session norm (fst (create (NotCallable v) w)) d later w =
        (\<lparr>destination = d, closed = True, children = [], factory = NotCallable v\<rparr>,
         emit [Delivered d (Error JTypeError)] w)
   \<and> observed d (since w (snd (session norm (fst (create (NotCallable v) w)) d later w)))
        = [Error JTypeError]"
  by (simp add: create_def DeferObservable_new_def Observable_new_def session_not_callable
        since_emit_same tryDefer_not_callable)

theorem invalid_factory_fails_at_subscribe_witness:
  "create (NotCallable (JNum 3)) start = (\<lparr>observableFactory = NotCallable (JNum 3)\<rparr>, start)
   \<and> session normalize (fst (create (NotCallable (JNum 3)) start)) 1 [Push Complete] start =
        (\<lparr>destination = 1, closed = True, children = [], factory = NotCallable (JNum 3)\<rparr>,
         \<lparr>user = 0, trace = [Delivered 1 (Error JTypeError)], fresh = 0\<rparr>)"
  using invalid_factory_fails_at_subscribe[of "NotCallable (JNum 3)" start "JNum 3" normalize 1
      "[Push Complete]"]
  by (simp add: run_defs start_def)

section \<open>Order of forwarding and registration\<close>

lemma subscribeToResult_returned:
  "\<not> closed this \<Longrightarrow> norm r = (acts, Returned) \<Longrightarrow>
   subscribeToResult norm this r w =
     (Inr (fresh w),
      if terminates acts then this\<lparr>closed := True, children := []\<rparr> else this,
      emit (map (Delivered (destination this)) (forwarded acts)
            @ (if terminates acts then map Released (children this) else []))
        (w\<lparr>fresh := Suc (fresh w)\<rparr>))"
  by (simp add: subscribeToResult_def Let_def deliver_open)

text \<open>
  C10: \<open>this.add(subscribeToResult(this, result))\<close> evaluates its argument first. When
  \<open>subscribeToResult\<close> returns, every signal the inner producer pushed synchronously has
  been dealt with (the signals due downstream are delivered, in order) while the
  subscriber still owns no child; only then is the inner subscription handed to
  \<open>add\<close>. So a terminal signal pushed synchronously tears the subscriber down while
  nothing is registered, and the inner subscription is released by \<open>add\<close> itself
  instead of being registered.
\<close>

theorem registration_follows_synchronous_signals:
  assumes "g (user w) = (Inr r, u)" and "truthy r" and "norm r = (acts, Returned)"
  shows "(case subscribeToResult norm
                 \<lparr>destination = d, closed = False, children = [], factory = Callable g\<rparr> r
                 (emit [Invoked] (w\<lparr>user := u\<rparr>)) of
            (res, this, w') \<Rightarrow>
              res = Inr (fresh w) \<and> children this = [] \<and> closed this = terminates acts
              \<and> since w w' = Invoked # map (Delivered d) (forwarded acts)
              \<and> subscribe norm \<lparr>observableFactory = Callable g\<rparr> d w = add (fresh w) this w')
       \<and> since w (snd (subscribe norm \<lparr>observableFactory = Callable g\<rparr> d w))
           = Invoked # map (Delivered d) (forwarded acts)
             @ [if terminates acts then Released (fresh w) else Registered (fresh w)]
       \<and> children (fst (subscribe norm \<lparr>observableFactory = Callable g\<rparr> d w))
           = (if terminates acts then [] else [fresh w])"
proof -
  let ?this = "\<lparr>destination = d, closed = False, children = [], factory = Callable g\<rparr>"
  have inner: "subscribeToResult norm ?this r (emit [Invoked] (w\<lparr>user := u\<rparr>)) =
      (Inr (fresh w),
       \<lparr>destination = d, closed = terminates acts, children = [], factory = Callable g\<rparr>,
       emit (Invoked # map (Delivered d) (forwarded acts)) (w\<lparr>user := u, fresh := Suc (fresh w)\<rparr>))"
    using assms(3) by (simp add: subscribeToResult_returned) (simp add: emit_def)
  have outer: "subscribe norm \<lparr>observableFactory = Callable g\<rparr> d w =
     (if terminates acts
      then \<lparr>destination = d, closed = True, children = [], factory = Callable g\<rparr>
      else \<lparr>destination = d, closed = False, children = [fresh w], factory = Callable g\<rparr>,
      emit (Invoked # map (Delivered d) (forwarded acts)
            @ [if terminates acts then Released (fresh w) else Registered (fresh w)])
        (w\<lparr>user := u, fresh := Suc (fresh w)\<rparr>))"
    using assms by (simp add: subscribe_returned)
  have "subscribe norm \<lparr>observableFactory = Callable g\<rparr> d w =
      add (fresh w)
        \<lparr>destination = d, closed = terminates acts, children = [], factory = Callable g\<rparr>
        (emit (Invoked # map (Delivered d) (forwarded acts))
           (w\<lparr>user := u, fresh := Suc (fresh w)\<rparr>))"
    unfolding outer by (simp add: add_def emit_emit)
  with inner outer show ?thesis by (simp add: since_emit)
qed

theorem registration_follows_synchronous_signals_witness:
  "truthy (JArray [JNum 1, JNum 2])
   \<and> normalize (JArray [JNum 1, JNum 2])
       = ([Push (Next (JNum 1)), Push (Next (JNum 2)), Push Complete], Returned)
   \<and> since start (snd (subscribe normalize
         \<lparr>observableFactory = Callable (\<lambda>n. (Inr (JArray [JNum 1, JNum 2]), n))\<rparr> 1 start))
       = [Invoked, Delivered 1 (Next (JNum 1)), Delivered 1 (Next (JNum 2)), Delivered 1 Complete,
          Released 0]
   \<and> children (fst (subscribe normalize
         \<lparr>observableFactory = Callable (\<lambda>n. (Inr (JArray [JNum 1, JNum 2]), n))\<rparr> 1 start)) = []"
  using registration_follows_synchronous_signals[of "\<lambda>n. (Inr (JArray [JNum 1, JNum 2]), n)" start
      "JArray [JNum 1, JNum 2]" 0 normalize
      "[Push (Next (JNum 1)), Push (Next (JNum 2)), Push Complete]" 1]
  by (simp add: run_defs start_def)

section \<open>The terminal signal\<close>

text \<open>
  C5: whatever the factory is, whatever the collaborator does and whatever reaches the
  subscriber later, the notifications the downstream consumer receives from one
  subscription are values followed by at most one terminal signal, with nothing after
  it; and once a terminal signal has been received the subscriber is released, owns no
  child, and every child it had registered has been released.
\<close>

theorem at_most_one_terminal_signal:
  "conformant (observed d (since w (snd (session norm obs d later w))))
   \<and> ((\<exists>s \<in> set (observed d (since w (snd (session norm obs d later w)))). terminal s) \<longrightarrow>
        closed (fst (session norm obs d later w))
        \<and> children (fst (session norm obs d later w)) = []
        \<and> (\<forall>c. Registered c \<in> set (since w (snd (session norm obs d later w))) \<longrightarrow>
                 Released c \<in> set (since w (snd (session norm obs d later w)))))"
proof (cases rule: factory_cases[where f = "observableFactory obs" and w = w and norm = norm])
  case (NotCallable v)
  then show ?thesis by (simp add: session_not_callable since_emit_same)
next
  case (Thrown g e u)
  then show ?thesis by (simp add: session_thrown since_emit_user)
next
  case (Falsy g r u)
  then show ?thesis
    using terminal_forwarded[of later]
    by (simp add: session_falsy since_emit_user observed_deliveries conformant_forwarded
          no_registration_in_deliveries del: set_map)
next
  case (Returned g r u acts)
  show ?thesis
  proof (cases "terminates acts")
    case True
    then show ?thesis using Returned
      by (simp add: session_returned since_emit observed_append observed_deliveries
            conformant_forwarded no_registration_in_deliveries del: set_map)
  next
    case False
    then show ?thesis using Returned terminal_forwarded[of later] no_terminal_forwarded[of acts]
      by (auto simp add: session_returned since_emit observed_append observed_deliveries
            conformant_forwarded conformant_forwarded_append)
  qed
next
  case (Failed g r u acts e)
  then show ?thesis
    by (simp add: session_failed since_emit observed_append observed_deliveries
          conformant_forwarded conformant_forwarded_append no_registration_in_deliveries
          del: set_map)
qed

theorem at_most_one_terminal_signal_witness:
  "observed 1 (since start (snd (session normalize
      \<lparr>observableFactory = Callable
         (\<lambda>n. (Inr (JObservable [Next (JNum 1)] [Complete, Next (JNum 2), Error (JStr ''late'')]), n))\<rparr>
      1 [Push Complete, Push (Next (JNum 2)), Push (Error (JStr ''late''))] start)))
     = [Next (JNum 1), Complete]
   \<and> conformant [Next (JNum 1), Complete :: jsval signal]
   \<and> terminal (Complete :: jsval signal)
   \<and> closed (fst (session normalize
      \<lparr>observableFactory = Callable
         (\<lambda>n. (Inr (JObservable [Next (JNum 1)] [Complete, Next (JNum 2), Error (JStr ''late'')]), n))\<rparr>
      1 [Push Complete, Push (Next (JNum 2)), Push (Error (JStr ''late''))] start))
   \<and> children (fst (session normalize
      \<lparr>observableFactory = Callable
         (\<lambda>n. (Inr (JObservable [Next (JNum 1)] [Complete, Next (JNum 2), Error (JStr ''late'')]), n))\<rparr>
      1 [Push Complete, Push (Next (JNum 2)), Push (Error (JStr ''late''))] start)) = []
   \<and> since start (snd (session normalize
      \<lparr>observableFactory = Callable
         (\<lambda>n. (Inr (JObservable [Next (JNum 1)] [Complete, Next (JNum 2), Error (JStr ''late'')]), n))\<rparr>
      1 [Push Complete, Push (Next (JNum 2)), Push (Error (JStr ''late''))] start))
     = [Invoked, Delivered 1 (Next (JNum 1)), Registered 0, Delivered 1 Complete, Released 0]"
  using at_most_one_terminal_signal[of 1 start normalize
      "\<lparr>observableFactory = Callable
         (\<lambda>n. (Inr (JObservable [Next (JNum 1)] [Complete, Next (JNum 2), Error (JStr ''late'')]), n))\<rparr>"
      "[Push Complete, Push (Next (JNum 2)), Push (Error (JStr ''late''))]"]
  by (simp add: run_defs start_def)

section \<open>Release\<close>

lemma terminates_cancelled: "terminates (acts @ [Cancel])"
  by (induction acts rule: forwarded.induct) simp_all

lemma deliver_cancelled:
  "closed (fst (deliver (acts @ [Cancel]) this w))
   \<and> children (fst (deliver (acts @ [Cancel]) this w)) = (if closed this then children this else [])"
  by (cases "closed this") (simp_all add: deliver_closed deliver_open terminates_cancelled)

lemma deliver_cancel_twice:
  "deliver (acts @ [Cancel, Cancel]) this w = deliver (acts @ [Cancel]) this w"
proof -
  have "deliver ((acts @ [Cancel]) @ [Cancel]) this w = deliver (acts @ [Cancel]) this w"
    using deliver_cancelled[of acts this w]
    by (subst deliver_append) (simp add: split_beta unsubscribe_def)
  then show ?thesis by simp
qed

lemma unsubscribe_twice:
  "(case unsubscribe this w of (this', w') \<Rightarrow> unsubscribe this' w') = unsubscribe this w"
  by (simp add: unsubscribe_def)

lemma unsubscribe_events:
  "since w (snd (unsubscribe this w)) = (if closed this then [] else map Released (children this))"
  by (simp add: unsubscribe_def since_def emit_def)

lemma unsubscribe_childless: "children this = [] \<Longrightarrow> snd (unsubscribe this w) = w"
  by (simp add: unsubscribe_def emit_def)

lemma session_releases_at_most_once:
  "count_list (since w (snd (session norm obs d later w))) (Released c) \<le> 1"
proof (cases rule: factory_cases[where f = "observableFactory obs" and w = w and norm = norm])
  case (NotCallable v)
  then show ?thesis by (simp add: session_not_callable since_emit_same)
next
  case (Thrown g e u)
  then show ?thesis by (simp add: session_thrown since_emit_user)
next
  case (Falsy g r u)
  then show ?thesis by (simp add: session_falsy since_emit_user no_release_in_deliveries)
next
  case (Returned g r u acts)
  then show ?thesis by (simp add: session_returned since_emit no_release_in_deliveries)
next
  case (Failed g r u acts e)
  then show ?thesis by (simp add: session_failed since_emit no_release_in_deliveries)
qed

lemma session_releases_what_it_registered:
  assumes "closed (fst (session norm obs d later w))"
    and "Registered c \<in> set (since w (snd (session norm obs d later w)))"
  shows "count_list (since w (snd (session norm obs d later w))) (Released c) = 1"
proof (cases rule: factory_cases[where f = "observableFactory obs" and w = w and norm = norm])
  case (NotCallable v)
  then show ?thesis using assms by (simp add: session_not_callable since_emit_same)
next
  case (Thrown g e u)
  then show ?thesis using assms by (simp add: session_thrown since_emit_user)
next
  case (Falsy g r u)
  then show ?thesis using assms
    by (simp add: session_falsy since_emit_user no_registration_in_deliveries del: set_map)
next
  case (Returned g r u acts)
  then show ?thesis using assms
    by (simp add: session_returned since_emit no_release_in_deliveries
          no_registration_in_deliveries split: if_splits del: set_map)
next
  case (Failed g r u acts e)
  then show ?thesis using assms
    by (simp add: session_failed since_emit no_registration_in_deliveries
          split: if_splits del: set_map)
qed

lemma session_releases_what_it_was_handed:
  assumes "observableFactory obs = Callable g" and "g (user w) = (Inr r, u)" and "truthy r"
    and "norm r = (acts, Returned)" and "closed (fst (session norm obs d later w))"
  shows "count_list (since w (snd (session norm obs d later w))) (Released (fresh w)) = 1"
  using assms
  by (simp add: session_returned since_emit no_release_in_deliveries split: if_splits)

text \<open>
  C6: releasing is idempotent (a second \<open>unsubscribe\<close> changes nothing); releasing a
  live subscriber releases exactly its children, each as often as it is owned, and
  releasing one that owns no child leaves the world as it was. Over a whole
  subscription no inner subscription is ever released twice; once the subscriber is
  released, by a terminal signal or by cancellation, a child it registered and the inner
  subscription it was handed have been released exactly once; and cancelling twice is
  the same as cancelling once.
\<close>

theorem release_is_exactly_once_and_idempotent:
  "(case unsubscribe this w of (this', w') \<Rightarrow> unsubscribe this' w') = unsubscribe this w
   \<and> since w (snd (unsubscribe this w))
       = (if closed this then [] else map Released (children this))
   \<and> (children this = [] \<longrightarrow> snd (unsubscribe this w) = w)
   \<and> count_list (since w (snd (session norm obs d later w))) (Released c) \<le> 1
   \<and> (closed (fst (session norm obs d later w)) \<longrightarrow>
        Registered c \<in> set (since w (snd (session norm obs d later w))) \<longrightarrow>
        count_list (since w (snd (session norm obs d later w))) (Released c) = 1)
   \<and> (observableFactory obs = Callable g \<longrightarrow> g (user w) = (Inr r, u) \<longrightarrow> truthy r \<longrightarrow>
        norm r = (acts, Returned) \<longrightarrow> closed (fst (session norm obs d later w)) \<longrightarrow>
        count_list (since w (snd (session norm obs d later w))) (Released (fresh w)) = 1)
   \<and> closed (fst (session norm obs d (later @ [Cancel]) w))
   \<and> children (fst (session norm obs d (later @ [Cancel]) w)) = []
   \<and> session norm obs d (later @ [Cancel, Cancel]) w = session norm obs d (later @ [Cancel]) w"
proof -
  have "closed (fst (session norm obs d (later @ [Cancel]) w))"
    by (simp add: session_def split_beta deliver_cancelled)
  moreover have "children (fst (session norm obs d (later @ [Cancel]) w)) = []"
  proof (cases rule: factory_cases[where f = "observableFactory obs" and w = w and norm = norm])
    case (NotCallable v)
    then show ?thesis by (simp add: session_not_callable)
  next
    case (Thrown g e u)
    then show ?thesis by (simp add: session_thrown)
  next
    case (Falsy g r u)
    then show ?thesis by (simp add: session_falsy)
  next
    case (Returned g r u acts)
    then show ?thesis by (simp add: session_returned terminates_cancelled)
  next
    case (Failed g r u acts e)
    then show ?thesis by (simp add: session_failed)
  qed
  moreover have "session norm obs d (later @ [Cancel, Cancel]) w
      = session norm obs d (later @ [Cancel]) w"
    by (simp add: session_def split_beta deliver_cancel_twice)
  ultimately show ?thesis
    using session_releases_at_most_once[of w norm obs d later c]
      session_releases_what_it_registered[of norm obs d later w c]
      session_releases_what_it_was_handed[of obs g w r u norm acts d later]
    by (simp add: unsubscribe_twice unsubscribe_events unsubscribe_childless)
qed

theorem release_is_exactly_once_and_idempotent_witness:
  "since start (snd (session normalize
      \<lparr>observableFactory = Callable (\<lambda>n. (Inr (JPromise (JNum 42)), n))\<rparr> 1 [Cancel] start))
     = [Invoked, Registered 0, Released 0]
   \<and> truthy (JPromise (JNum 42)) \<and> normalize (JPromise (JNum 42)) = ([], Returned)
   \<and> closed (fst (session normalize
      \<lparr>observableFactory = Callable (\<lambda>n. (Inr (JPromise (JNum 42)), n))\<rparr> 1 [Cancel] start))
   \<and> count_list (since start (snd (session normalize
      \<lparr>observableFactory = Callable (\<lambda>n. (Inr (JPromise (JNum 42)), n))\<rparr> 1 [Cancel] start)))
        (Released (fresh start)) = 1
   \<and> session normalize
      \<lparr>observableFactory = Callable (\<lambda>n. (Inr (JPromise (JNum 42)), n))\<rparr> 1 ([] @ [Cancel, Cancel]) start
     = session normalize
      \<lparr>observableFactory = Callable (\<lambda>n. (Inr (JPromise (JNum 42)), n))\<rparr> 1 ([] @ [Cancel]) start
   \<and> snd (unsubscribe \<lparr>destination = 1, closed = False, children = []\<rparr> start) = start
   \<and> since start (snd (unsubscribe \<lparr>destination = 1, closed = False, children = [4, 5]\<rparr> start))
     = [Released 4, Released 5]"
  using release_is_exactly_once_and_idempotent[of
      "\<lparr>destination = 1, closed = False, children = []\<rparr>" start normalize
      "\<lparr>observableFactory = Callable (\<lambda>n. (Inr (JPromise (JNum 42)), n))\<rparr>" 1 "[Cancel]" 0
      "\<lambda>n. (Inr (JPromise (JNum 42)), n)" "JPromise (JNum 42)" 0 "[]"]
    release_is_exactly_once_and_idempotent[of
      "\<lparr>destination = 1, closed = False, children = [4, 5]\<rparr>" start normalize
      "\<lparr>observableFactory = Callable (\<lambda>n. (Inr (JPromise (JNum 42)), n))\<rparr>" 1 "[]" 0
      "\<lambda>n. (Inr (JPromise (JNum 42)), n)" "JPromise (JNum 42)" 0 "[]"]
  by (simp add: run_defs start_def)

section \<open>Pass-through\<close>

text \<open>
  C8: when the factory returns a conformant producer, the downstream consumer receives
  through the delegation layer exactly what it would receive by subscribing to that
  producer directly: the same signals in the same order, with the same terminal
  signal; and what the producer pushes during the subscribing call is delivered during
  that call, not held back.
\<close>

theorem delegation_is_pass_through:
  assumes "g (user w) = (Inr (JObservable sync later), u)" and "conformant (sync @ later)"
  shows "observed d (since w (snd (session normalize \<lparr>observableFactory = Callable g\<rparr> d
             (afterwards (JObservable sync later)) w)))
           = observed d (since w (subscribe_directly sync later d w))
       \<and> observed d (since w (subscribe_directly sync later d w)) = sync @ later
       \<and> observed d (since w (snd (subscribe normalize \<lparr>observableFactory = Callable g\<rparr> d w)))
           = sync"
proof -
  have sync: "forwarded (map Push sync) = sync"
    using assms(2) by (simp add: forwarded_conformant conformant_appendD1)
  have later: "forwarded (map Push later) = later"
    using assms(2) by (simp add: forwarded_conformant conformant_appendD2)
  have direct: "observed d (since w (subscribe_directly sync later d w)) = sync @ later"
    by (simp add: subscribe_directly_def since_emit_same observed_deliveries del: map_append)
  have during: "observed d (since w (snd (subscribe normalize \<lparr>observableFactory = Callable g\<rparr> d w)))
      = sync"
    using assms(1)
    by (simp add: subscribe_returned[where acts = "map Push sync"] since_emit observed_append
          observed_deliveries sync)
  have "observed d (since w (snd (session normalize \<lparr>observableFactory = Callable g\<rparr> d
             (afterwards (JObservable sync later)) w))) = sync @ later"
  proof (cases "terminates (map Push sync)")
    case True
    then have "later = []" using assms(2) by (rule conformant_terminated[rotated])
    with True show ?thesis using assms(1)
      by (simp add: session_returned[where acts = "map Push sync"] since_emit observed_append
            observed_deliveries sync)
  next
    case False
    then show ?thesis using assms(1)
      by (simp add: session_returned[where acts = "map Push sync"] since_emit observed_append
            observed_deliveries sync later)
  qed
  with direct during show ?thesis by simp
qed

theorem delegation_is_pass_through_witness:
  "conformant ([Next (JNum 1), Next (JNum 2)] @ [Next (JNum 3), Complete])
   \<and> observed 1 (since start (snd (session normalize
        \<lparr>observableFactory = Callable
           (\<lambda>n. (Inr (JObservable [Next (JNum 1), Next (JNum 2)] [Next (JNum 3), Complete]), n))\<rparr> 1
        (afterwards (JObservable [Next (JNum 1), Next (JNum 2)] [Next (JNum 3), Complete])) start)))
       = [Next (JNum 1), Next (JNum 2), Next (JNum 3), Complete]
   \<and> observed 1 (since start
        (subscribe_directly [Next (JNum 1), Next (JNum 2)] [Next (JNum 3), Complete] 1 start))
       = [Next (JNum 1), Next (JNum 2), Next (JNum 3), Complete]
   \<and> observed 1 (since start (snd (subscribe normalize
        \<lparr>observableFactory = Callable
           (\<lambda>n. (Inr (JObservable [Next (JNum 1), Next (JNum 2)] [Next (JNum 3), Complete]), n))\<rparr> 1
        start)))
       = [Next (JNum 1), Next (JNum 2)]"
  using delegation_is_pass_through[of
      "\<lambda>n. (Inr (JObservable [Next (JNum 1), Next (JNum 2)] [Next (JNum 3), Complete]), n)"
      start "[Next (JNum 1), Next (JNum 2)]" "[Next (JNum 3), Complete]" 0 1]
  by (simp add: run_defs subscribe_directly_def start_def)

end
